theory Spec2Isabelle
  imports Complex_Main
begin

section \<open>Numbers\<close>

text \<open>
  A JavaScript number is an IEEE 754 double: a finite value, which is a rational, one of the
  two infinities, or \<open>NaN\<close>. The two zeros are one value here: the builder compares and
  prints numbers and tests them for truth, which treats both zeros alike, and it divides
  only by a row count of at least 1 and by an average that it has found different from
  zero.
\<close>

datatype double = Finite rat | PosInf | NegInf | NaN

text \<open>
  Rounding to the nearest double, ties to even: the exponent \<open>e\<close> of \<open>a = |x|\<close> satisfies
  \<open>2^e \<le> a < 2^(e+1)\<close> and is at least \<open>-1022\<close> (below, the doubles are subnormal), a double
  in this range is a multiple of \<open>2^(e-52)\<close>, and a result of \<open>2^1024\<close> or more overflows to
  an infinity.
\<close>

definition pow2 :: "int \<Rightarrow> rat" where
  "pow2 e = (if 0 \<le> e then 2 ^ nat e else 1 / 2 ^ nat (- e))"

function ilog2_up :: "rat \<Rightarrow> nat" where
  "ilog2_up a = (if a < 2 then 0 else Suc (ilog2_up (a / 2)))"
  by pat_completeness auto
termination
proof (relation "measure (\<lambda>a. nat \<lfloor>a\<rfloor>)")
  show "wf (measure (\<lambda>a::rat. nat \<lfloor>a\<rfloor>))" by simp
next
  fix a :: rat assume "\<not> a < 2"
  then have "a / 2 \<le> a - 1" by simp
  then have "\<lfloor>a / 2\<rfloor> \<le> \<lfloor>a - 1\<rfloor>" by (rule floor_mono)
  moreover from \<open>\<not> a < 2\<close> have "0 < \<lfloor>a\<rfloor>" by simp
  ultimately show "(a / 2, a) \<in> measure (\<lambda>a. nat \<lfloor>a\<rfloor>)" by simp
qed

declare ilog2_up.simps [simp del]

definition ilog2 :: "rat \<Rightarrow> int" where
  "ilog2 a =
     (if 1 \<le> a then int (ilog2_up a)
      else if 1 / a = 2 ^ ilog2_up (1 / a) then - int (ilog2_up (1 / a))
      else - int (ilog2_up (1 / a)) - 1)"

definition round_half_even :: "rat \<Rightarrow> int" where
  "round_half_even x =
     (let n = \<lfloor>x\<rfloor>; r = x - of_int n
      in if r < 1 / 2 then n else if 1 / 2 < r then n + 1 else if even n then n else n + 1)"

definition round_double :: "rat \<Rightarrow> double" where
  "round_double x =
     (if x = 0 then Finite 0
      else
        let a = \<bar>x\<bar>;
            e = max (ilog2 a) (- 1022);
            q = pow2 (e - 52);
            m = of_int (round_half_even (a / q)) * q
        in if pow2 1024 \<le> m then (if x < 0 then NegInf else PosInf)
           else Finite (if x < 0 then - m else m))"

text \<open>
  The arithmetic of the builder: \<open>+\<close>, \<open>-\<close>, \<open>*\<close> and \<open>/\<close> on doubles. \<open>NaN\<close> is
  contagious, and so are the undefined forms of the infinities; a finite result is the
  exact one, rounded. A quotient by zero takes the zero as positive.
\<close>

fun fneg :: "double \<Rightarrow> double" where
  "fneg (Finite x) = Finite (- x)"
| "fneg PosInf = NegInf"
| "fneg NegInf = PosInf"
| "fneg NaN = NaN"

fun fadd :: "double \<Rightarrow> double \<Rightarrow> double" where
  "fadd (Finite x) (Finite y) = round_double (x + y)"
| "fadd NaN b = NaN"
| "fadd a NaN = NaN"
| "fadd PosInf NegInf = NaN"
| "fadd NegInf PosInf = NaN"
| "fadd PosInf b = PosInf"
| "fadd NegInf b = NegInf"
| "fadd (Finite x) b = b"

definition fsub :: "double \<Rightarrow> double \<Rightarrow> double" where
  "fsub a b = fadd a (fneg b)"

fun fmul :: "double \<Rightarrow> double \<Rightarrow> double" where
  "fmul (Finite x) (Finite y) = round_double (x * y)"
| "fmul NaN b = NaN"
| "fmul a NaN = NaN"
| "fmul (Finite x) b = (if x = 0 then NaN else if 0 < x then b else fneg b)"
| "fmul a (Finite y) = (if y = 0 then NaN else if 0 < y then a else fneg a)"
| "fmul PosInf b = b"
| "fmul NegInf b = fneg b"

fun fdiv :: "double \<Rightarrow> double \<Rightarrow> double" where
  "fdiv (Finite x) (Finite y) =
     (if y = 0 then (if x = 0 then NaN else if 0 < x then PosInf else NegInf)
      else round_double (x / y))"
| "fdiv NaN b = NaN"
| "fdiv a NaN = NaN"
| "fdiv (Finite x) b = Finite 0"
| "fdiv a (Finite y) = (if y < 0 then fneg a else a)"
| "fdiv a b = NaN"

text \<open>\<open>a < b\<close> on numbers: false as soon as one side is \<open>NaN\<close>.\<close>

fun js_less :: "double \<Rightarrow> double \<Rightarrow> bool" where
  "js_less (Finite x) (Finite y) = (x < y)"
| "js_less NaN b = False"
| "js_less a NaN = False"
| "js_less a NegInf = False"
| "js_less PosInf b = False"
| "js_less a b = True"

section \<open>JavaScript values read by the bar chart's view-model builder\<close>

text \<open>
  The visual receives its data from the host as \<open>PrimitiveValue\<close>s
  (\<open>string | number | boolean | Date\<close>), and an array read past its end yields
  \<open>undefined\<close>. A number of the input may be any rational, an infinity or \<open>NaN\<close>; the
  doubles are among them.
\<close>

datatype jsval =
    JUndefined
  | JNull
  | JBool bool
  | JNum double
  | JStr string
  | JDate int

datatype error = TypeError

text \<open>ToBoolean: what \<open>x ? a : b\<close>, \<open>!x\<close> and \<open>filter\<close> test.\<close>

fun truthy :: "jsval \<Rightarrow> bool" where
  "truthy JUndefined = False"
| "truthy JNull = False"
| "truthy (JBool b) = b"
| "truthy (JNum r) = (r \<noteq> Finite 0 \<and> r \<noteq> NaN)"
| "truthy (JStr s) = (s \<noteq> [])"
| "truthy (JDate t) = True"

text \<open>\<open>xs[i]\<close> on an array of primitive values: \<open>undefined\<close> past the end.\<close>

definition at_index :: "jsval list \<Rightarrow> nat \<Rightarrow> jsval" where
  "at_index xs i = (if i < length xs then xs ! i else JUndefined)"

text \<open>\<open>xs[i]\<close> on an array of objects, whose entries may themselves be missing.\<close>

definition at_object :: "'a option list \<Rightarrow> nat \<Rightarrow> 'a option" where
  "at_object xs i = (if i < length xs then xs ! i else None)"

section \<open>Number.prototype.toFixed\<close>

text \<open>The digits of the decimal representation of an integer that is not negative.\<close>

definition digit_char :: "int \<Rightarrow> char" where
  "digit_char d = ''0123456789'' ! nat d"

function decimal :: "int \<Rightarrow> string" where
  "decimal n = (if n < 10 then [digit_char n] else decimal (n div 10) @ [digit_char (n mod 10)])"
  by pat_completeness auto
termination
  by (relation "measure nat") auto

declare decimal.simps [simp del]

text \<open>
  \<open>x.toFixed(f)\<close> for a finite number \<open>x\<close> (ECMAScript, Number.prototype.toFixed): the sign
  is split off, \<open>n\<close> is the integer nearest to \<open>x * 10^f\<close> (the larger one on a tie), and its
  digits are padded with zeros so that \<open>f\<close> of them follow the point. From \<open>10^21\<close> on the
  result is the engine's \<open>ToString\<close> of the number, which is the parameter \<open>toStr\<close>.
\<close>

definition toFixed_finite :: "(rat \<Rightarrow> string) \<Rightarrow> nat \<Rightarrow> rat \<Rightarrow> string" where
  "toFixed_finite toStr f x0 =
     (let s = (if x0 < 0 then ''-'' else []);
          x = (if x0 < 0 then - x0 else x0)
      in if 10 ^ 21 \<le> x then s @ toStr x
         else
           let n = \<lfloor>x * 10 ^ f + 1 / 2\<rfloor>;
               m = (if n = 0 then ''0'' else decimal n);
               m' = (if f \<noteq> 0
                     then (let z = (if length m \<le> f then replicate (f + 1 - length m) (CHR ''0'') else []);
                               zm = z @ m;
                               k = length zm
                           in take (k - f) zm @ ''.'' @ drop (k - f) zm)
                     else m)
           in s @ m')"

text \<open>\<open>NaN\<close> and the infinities print as their names.\<close>

definition toFixed :: "(rat \<Rightarrow> string) \<Rightarrow> nat \<Rightarrow> double \<Rightarrow> string" where
  "toFixed toStr f v =
     (case v of
        Finite x \<Rightarrow> toFixed_finite toStr f x
      | PosInf \<Rightarrow> ''Infinity''
      | NegInf \<Rightarrow> ''-Infinity''
      | NaN \<Rightarrow> ''NaN'')"

section \<open>d3.max and d3.sum\<close>

text \<open>
  The two array helpers of d3 (version 3) that the builder calls, both with an accessor,
  which returns the \<open>value\<close> of a data point, a number. \<open>d3.max\<close> looks for a first element
  \<open>b\<close> with \<open>b >= b\<close>, which only \<open>NaN\<close> fails, and then keeps the larger of it and each later
  one; \<open>a\<close> is never assigned when no such element exists, so the result is \<open>undefined\<close> on
  an empty array. \<open>d3.sum\<close> starts from \<open>0\<close> and adds every element that is not \<open>NaN\<close>.
\<close>

fun d3_max_rest :: "double \<Rightarrow> double list \<Rightarrow> double" where
  "d3_max_rest a [] = a"
| "d3_max_rest a (b # bs) = d3_max_rest (if js_less a b then b else a) bs"

definition d3_max :: "'a list \<Rightarrow> ('a \<Rightarrow> double) \<Rightarrow> jsval" where
  "d3_max array f =
     (case dropWhile (\<lambda>b. b = NaN) (map f array) of
        [] \<Rightarrow> JUndefined
      | b # bs \<Rightarrow> JNum (d3_max_rest b bs))"

fun d3_sum_from :: "double \<Rightarrow> double list \<Rightarrow> double" where
  "d3_sum_from s [] = s"
| "d3_sum_from s (a # as) = d3_sum_from (if a \<noteq> NaN then fadd s a else s) as"

definition d3_sum :: "'a list \<Rightarrow> ('a \<Rightarrow> double) \<Rightarrow> double" where
  "d3_sum array f = d3_sum_from (Finite 0) (map f array)"

section \<open>The data view of the host\<close>

text \<open>
  The fields are those of the Power BI API that the builder reads. A field that the guard
  of the builder tests for absence is an \<open>option\<close>; so is \<open>roles\<close>, which the API declares
  optional. An array of objects may hold missing entries. The \<open>roles\<close> object
  (\<open>{[name: string]: boolean}\<close>) is a list of its properties, read with \<open>map_of\<close>.
  The \<open>values\<close> array of a column and the \<open>columns\<close> of the metadata are required by the
  API and read without a test, so they are plain lists. The field \<open>values\<close> of a category
  column is \<open>cat_values\<close> here, that of a value column \<open>val_values\<close>, and that of the
  categorical section \<open>values_columns\<close>; the \<open>value\<close> of a data point is \<open>dp_value\<close>.
\<close>

record DataViewMetadataColumn =
  displayName :: string
  roles :: "(string \<times> bool) list option"

record DataViewMetadata =
  columns :: "DataViewMetadataColumn list"

text \<open>
  Of the \<open>DataViewObjects\<close> of a category the builder reads only
  \<open>DataViewObjects.getFillColor(objects[i], {dataColors, fill}, null)\<close>; an entry of
  \<open>objects\<close> is modelled by that result, \<open>None\<close> being the default \<open>null\<close>.
\<close>

type_synonym DataViewObjects = "string option"

record DataViewCategoryColumn =
  source :: "DataViewMetadataColumn option"
  cat_values :: "jsval list"
  objects :: "DataViewObjects option list option"

record DataViewValueColumn =
  val_values :: "jsval list"
  val_highlights :: "jsval list option"

record DataViewCategorical =
  categories :: "DataViewCategoryColumn option list option"
  values_columns :: "DataViewValueColumn option list option"

record DataView =
  categorical :: "DataViewCategorical option"
  metadata :: "DataViewMetadata option"

record VisualUpdateOptions =
  dataViews :: "DataView option list option"

text \<open>
  What the builder uses of its surroundings: the colour palette of the host
  (\<open>host.colorPalette.getColor(key).value\<close>) and the engine's printing of a finite number
  of magnitude \<open>10^21\<close> or more, which \<open>toFixed\<close> falls back to.
\<close>

record Host =
  getColor :: "jsval \<Rightarrow> string"
  numberToString :: "rat \<Rightarrow> string"

text \<open>The selection id of a row, the \<open>identity\<close> of its data point.\<close>

datatype SelectionId = SelectionId "DataViewMetadataColumn option" nat

text \<open>
  Modelled from the spec: the selection-id builder of the host
  (\<open>host.createSelectionIdBuilder().withCategory(categories, i).createSelectionId()\<close>) is
  not part of the sources. The specification describes its result as a stable key combining
  the category column's source identity and the row index.
\<close>

definition createSelectionId :: "DataViewCategoryColumn \<Rightarrow> nat \<Rightarrow> SelectionId" where
  "createSelectionId cats i = SelectionId (source cats) i"

section \<open>The view model\<close>

record VisualTooltipDataItem =
  tip_displayName :: string
  tip_value :: jsval

record DataPoint =
  category :: jsval
  dp_value :: double
  colour :: string
  identity :: SelectionId
  highlighted :: bool
  tooltips :: "VisualTooltipDataItem list"

record ViewModel =
  dataPoints :: "DataPoint list"
  maxValue :: jsval
  highlights :: bool
  average :: double

section \<open>getViewModel\<close>

text \<open>The view model that \<open>getViewModel\<close> starts from, and returns when its guard fails.\<close>

definition emptyViewModel :: ViewModel where
  "emptyViewModel =
     \<lparr>dataPoints = [], maxValue = JNum (Finite 0), highlights = False, average = Finite 0\<rparr>"

text \<open>
  \<open>metadata.columns.filter(c => c.roles[r])\<close>: the callback reads a property of \<open>c.roles\<close>
  and throws on a column without roles; a role that is absent from the object is
  \<open>undefined\<close>, which is falsy.
\<close>

fun filter_by_role :: "string \<Rightarrow> DataViewMetadataColumn list \<Rightarrow> error + DataViewMetadataColumn list" where
  "filter_by_role r [] = Inr []"
| "filter_by_role r (c # cs) =
     (case roles c of
        None \<Rightarrow> Inl TypeError
      | Some m \<Rightarrow>
          (case filter_by_role r cs of
             Inl e \<Rightarrow> Inl e
           | Inr ys \<Rightarrow> Inr (if map_of m r = Some True then c # ys else ys)))"

text \<open>\<open>metadata.columns.filter(c => c.roles[r])[0].displayName\<close>\<close>

definition columnName :: "DataViewMetadata \<Rightarrow> string \<Rightarrow> error + string" where
  "columnName md r =
     (case filter_by_role r (columns md) of
        Inl e \<Rightarrow> Inl e
      | Inr [] \<Rightarrow> Inl TypeError
      | Inr (c # cs) \<Rightarrow> Inr (displayName c))"

text \<open>
  \<open>objects && objects[i] && DataViewObjects.getFillColor(objects[i], ..., null)
     || host.colorPalette.getColor(categories.values[i]).value\<close>
\<close>

definition colourAt :: "Host \<Rightarrow> DataViewCategoryColumn \<Rightarrow> nat \<Rightarrow> string" where
  "colourAt host cats i =
     (let palette = getColor host (at_index (cat_values cats) i)
      in case objects cats of
           None \<Rightarrow> palette
         | Some objs \<Rightarrow>
             (case at_object objs i of
                None \<Rightarrow> palette
              | Some fill \<Rightarrow>
                  (case fill of
                     None \<Rightarrow> palette
                   | Some c \<Rightarrow> if c \<noteq> [] then c else palette)))"

text \<open>\<open>highlights ? highlights[i] ? true : false : false\<close>\<close>

definition highlightedAt :: "jsval list option \<Rightarrow> nat \<Rightarrow> bool" where
  "highlightedAt hl i =
     (case hl of
        None \<Rightarrow> False
      | Some hs \<Rightarrow> if truthy (at_index hs i) then True else False)"

text \<open>
  The object literal pushed for row \<open>i\<close>. Its last field calls \<open>toFixed\<close> on
  \<open>values.values[i]\<close>: on \<open>undefined\<close> and \<open>null\<close> the property access throws, and a
  string, a boolean or a date has no such method, so that only a number gets through.
  The data point exists only then, which is why its \<open>value\<close> is a number; \<open>NaN\<close> and the
  infinities are numbers and get through.
\<close>

definition dataPointAt ::
    "Host \<Rightarrow> DataViewCategoryColumn \<Rightarrow> DataViewValueColumn \<Rightarrow> string \<Rightarrow> string \<Rightarrow> nat
      \<Rightarrow> error + DataPoint" where
  "dataPointAt host cats vals categoryColumnName valueColumnName i =
     (case at_index (val_values vals) i of
        JNum v \<Rightarrow>
          Inr \<lparr>category = at_index (cat_values cats) i,
               dp_value = v,
               colour = colourAt host cats i,
               identity = createSelectionId cats i,
               highlighted = highlightedAt (val_highlights vals) i,
               tooltips =
                 [\<lparr>tip_displayName = categoryColumnName,
                   tip_value = at_index (cat_values cats) i\<rparr>,
                  \<lparr>tip_displayName = valueColumnName,
                   tip_value = JStr (toFixed (numberToString host) 2 v)\<rparr>]\<rparr>
      | _ \<Rightarrow> Inl TypeError)"

text \<open>\<open>for (let i = 0, len = ...; i < len; i++) viewModel.dataPoints.push(...)\<close>\<close>

function getViewModel_loop ::
    "(nat \<Rightarrow> error + DataPoint) \<Rightarrow> nat \<Rightarrow> nat \<Rightarrow> DataPoint list \<Rightarrow> error + DataPoint list" where
  "getViewModel_loop mk i len dps =
     (if i < len
      then (case mk i of
              Inl e \<Rightarrow> Inl e
            | Inr dp \<Rightarrow> getViewModel_loop mk (Suc i) len (dps @ [dp]))
      else Inr dps)"
  by pat_completeness auto
termination
  by (relation "measure (\<lambda>(mk, i, len, dps). len - i)") auto

declare getViewModel_loop.simps [simp del]

definition absDeviation :: "Host \<Rightarrow> double \<Rightarrow> DataPoint \<Rightarrow> VisualTooltipDataItem" where
  "absDeviation host avg dp =
     \<lparr>tip_displayName = ''Deviation (abs)'',
      tip_value = JStr (toFixed (numberToString host) 2 (fsub (dp_value dp) avg))\<rparr>"

definition pctDeviation :: "Host \<Rightarrow> double \<Rightarrow> DataPoint \<Rightarrow> VisualTooltipDataItem" where
  "pctDeviation host avg dp =
     \<lparr>tip_displayName = ''Deviation (%)'',
      tip_value =
        JStr (toFixed (numberToString host) 2
                (fdiv (fmul (Finite 100) (fsub (dp_value dp) avg)) avg) @ ''%'')\<rparr>"

text \<open>\<open>for (let dp of viewModel.dataPoints) dp.tooltips.push(item)\<close>\<close>

definition pushTooltip :: "(DataPoint \<Rightarrow> VisualTooltipDataItem) \<Rightarrow> DataPoint list \<Rightarrow> DataPoint list" where
  "pushTooltip item dps = map (\<lambda>dp. dp\<lparr>tooltips := tooltips dp @ [item dp]\<rparr>) dps"

text \<open>The statements after the loop: the statistics and the deviation tooltips.\<close>

definition getViewModel_finish :: "Host \<Rightarrow> DataPoint list \<Rightarrow> ViewModel" where
  "getViewModel_finish host dps =
     (let maxV = d3_max dps dp_value;
          hl = (length (filter highlighted dps) > 0);
          avg = (if length dps > 0
                 then fdiv (d3_sum dps dp_value) (Finite (of_nat (length dps)))
                 else Finite 0);
          dps1 = pushTooltip (absDeviation host avg) dps;
          dps2 = (if avg \<noteq> Finite 0 then pushTooltip (pctDeviation host avg) dps1 else dps1)
      in \<lparr>dataPoints = dps2, maxValue = maxV, highlights = hl, average = avg\<rparr>)"

text \<open>
  The guard is a chain of \<open>||\<close>, evaluated from the left: each test is reached only when
  the ones before it found their part present. \<open>categories[0].source\<close> reads a property of
  the first category column, and \<open>values.highlights\<close> (after the guard) one of the first
  value column: both throw when that column is missing from its array.
\<close>

definition getViewModel :: "Host \<Rightarrow> VisualUpdateOptions \<Rightarrow> error + ViewModel" where
  "getViewModel host options =
     (case dataViews options of None \<Rightarrow> Inr emptyViewModel | Some dv \<Rightarrow>
     (case at_object dv 0 of None \<Rightarrow> Inr emptyViewModel | Some dv0 \<Rightarrow>
     (case categorical dv0 of None \<Rightarrow> Inr emptyViewModel | Some view \<Rightarrow>
     (case categories view of None \<Rightarrow> Inr emptyViewModel | Some cs \<Rightarrow>
     (case at_object cs 0 of None \<Rightarrow> Inl TypeError | Some cats \<Rightarrow>
     (case source cats of None \<Rightarrow> Inr emptyViewModel | Some src \<Rightarrow>
     (case values_columns view of None \<Rightarrow> Inr emptyViewModel | Some vs \<Rightarrow>
     (case metadata dv0 of None \<Rightarrow> Inr emptyViewModel | Some md \<Rightarrow>
     (case at_object vs 0 of None \<Rightarrow> Inl TypeError | Some vals \<Rightarrow>
     (case columnName md ''category'' of Inl e \<Rightarrow> Inl e | Inr categoryColumnName \<Rightarrow>
     (case columnName md ''measure'' of Inl e \<Rightarrow> Inl e | Inr valueColumnName \<Rightarrow>
     (case getViewModel_loop (dataPointAt host cats vals categoryColumnName valueColumnName) 0
             (max (length (cat_values cats)) (length (val_values vals))) [] of
        Inl e \<Rightarrow> Inl e
      | Inr dps \<Rightarrow> Inr (getViewModel_finish host dps)))))))))))))"

section \<open>Inputs\<close>

text \<open>
  The parts of the input that the builder works on once its guard has let the input
  through: the first category column, the first value column and the metadata of the
  first data view.
\<close>

definition firstDataView :: "VisualUpdateOptions \<Rightarrow> DataView option" where
  "firstDataView options = (case dataViews options of None \<Rightarrow> None | Some dv \<Rightarrow> at_object dv 0)"

definition firstCategory :: "DataView \<Rightarrow> DataViewCategoryColumn option" where
  "firstCategory dv0 =
     (case categorical dv0 of
        None \<Rightarrow> None
      | Some view \<Rightarrow> (case categories view of None \<Rightarrow> None | Some cs \<Rightarrow> at_object cs 0))"

definition firstMeasure :: "DataView \<Rightarrow> DataViewValueColumn option" where
  "firstMeasure dv0 =
     (case categorical dv0 of
        None \<Rightarrow> None
      | Some view \<Rightarrow> (case values_columns view of None \<Rightarrow> None | Some vs \<Rightarrow> at_object vs 0))"

definition accepted ::
    "VisualUpdateOptions \<Rightarrow> DataViewCategoryColumn \<Rightarrow> DataViewValueColumn \<Rightarrow> DataViewMetadata \<Rightarrow> bool" where
  "accepted options cats vals md =
     (case firstDataView options of
        None \<Rightarrow> False
      | Some dv0 \<Rightarrow>
          firstCategory dv0 = Some cats \<and> source cats \<noteq> None \<and>
          firstMeasure dv0 = Some vals \<and> metadata dv0 = Some md)"

text \<open>The number of rows: the bound of the loop.\<close>

definition rowCount :: "DataViewCategoryColumn \<Rightarrow> DataViewValueColumn \<Rightarrow> nat" where
  "rowCount cats vals = max (length (cat_values cats)) (length (val_values vals))"

definition hasRole :: "string \<Rightarrow> DataViewMetadataColumn \<Rightarrow> bool" where
  "hasRole r c = (case roles c of None \<Rightarrow> False | Some m \<Rightarrow> map_of m r = Some True)"

definition isNumber :: "jsval \<Rightarrow> bool" where
  "isNumber v = (case v of JNum r \<Rightarrow> True | _ \<Rightarrow> False)"

text \<open>
  An accepted input is well formed when every metadata column carries its roles, one column
  has the role \<open>category\<close> and one the role \<open>measure\<close>, and every row has a number as its
  measure value.
\<close>

definition well_formed :: "DataViewCategoryColumn \<Rightarrow> DataViewValueColumn \<Rightarrow> DataViewMetadata \<Rightarrow> bool" where
  "well_formed cats vals md =
     (list_all (\<lambda>c. roles c \<noteq> None) (columns md) \<and>
      list_ex (hasRole ''category'') (columns md) \<and>
      list_ex (hasRole ''measure'') (columns md) \<and>
      list_all isNumber (map (at_index (val_values vals)) [0 ..< rowCount cats vals]))"

text \<open>An update with one data view, and sample inputs with one category and one measure.\<close>

definition oneDataView ::
    "DataViewCategoryColumn option list option \<Rightarrow> DataViewValueColumn option list option
      \<Rightarrow> DataViewMetadata option \<Rightarrow> VisualUpdateOptions" where
  "oneDataView cs vs md =
     \<lparr>dataViews = Some [Some \<lparr>categorical = Some \<lparr>categories = cs, values_columns = vs\<rparr>,
                              metadata = md\<rparr>]\<rparr>"

definition sampleCategoryColumn :: DataViewMetadataColumn where
  "sampleCategoryColumn = \<lparr>displayName = ''Category'', roles = Some [(''category'', True)]\<rparr>"

definition sampleMeasureColumn :: DataViewMetadataColumn where
  "sampleMeasureColumn = \<lparr>displayName = ''Sales'', roles = Some [(''measure'', True)]\<rparr>"

definition sampleMetadata :: DataViewMetadata where
  "sampleMetadata = \<lparr>columns = [sampleCategoryColumn, sampleMeasureColumn]\<rparr>"

definition sampleCategories :: "jsval list \<Rightarrow> DataViewCategoryColumn" where
  "sampleCategories cs = \<lparr>source = Some sampleCategoryColumn, cat_values = cs, objects = None\<rparr>"

definition sampleValues :: "jsval list \<Rightarrow> jsval list option \<Rightarrow> DataViewValueColumn" where
  "sampleValues vs hl = \<lparr>val_values = vs, val_highlights = hl\<rparr>"

definition sampleOptions :: "jsval list \<Rightarrow> jsval list \<Rightarrow> jsval list option \<Rightarrow> VisualUpdateOptions" where
  "sampleOptions cs vs hl =
     oneDataView (Some [Some (sampleCategories cs)]) (Some [Some (sampleValues vs hl)])
       (Some sampleMetadata)"

text \<open>
  A sample host with a palette of one colour. No sample run prints a number as large as
  \<open>10^21\<close>, so its printing of large numbers is never called there.
\<close>

definition sampleHost :: Host where
  "sampleHost = \<lparr>getColor = (\<lambda>key. ''#01B8AA''), numberToString = (\<lambda>x. ''1e+21'')\<rparr>"

definition sampleABC :: VisualUpdateOptions where
  "sampleABC = sampleOptions [JStr ''A'', JStr ''B'', JStr ''C''] [JNum (Finite 10), JNum (Finite 20), JNum (Finite 30)] None"

definition sampleABCViewModel :: "Host \<Rightarrow> ViewModel" where
  "sampleABCViewModel host =
     \<lparr>dataPoints =
        [\<lparr>category = JStr ''A'', dp_value = Finite 10, colour = getColor host (JStr ''A''),
          identity = SelectionId (Some sampleCategoryColumn) 0,
          highlighted = False,
          tooltips =
            [\<lparr>tip_displayName = ''Category'', tip_value = JStr ''A''\<rparr>,
             \<lparr>tip_displayName = ''Sales'', tip_value = JStr ''10.00''\<rparr>,
             \<lparr>tip_displayName = ''Deviation (abs)'', tip_value = JStr ''-10.00''\<rparr>,
             \<lparr>tip_displayName = ''Deviation (%)'', tip_value = JStr ''-50.00%''\<rparr>]\<rparr>,
         \<lparr>category = JStr ''B'', dp_value = Finite 20, colour = getColor host (JStr ''B''),
          identity = SelectionId (Some sampleCategoryColumn) 1,
          highlighted = False,
          tooltips =
            [\<lparr>tip_displayName = ''Category'', tip_value = JStr ''B''\<rparr>,
             \<lparr>tip_displayName = ''Sales'', tip_value = JStr ''20.00''\<rparr>,
             \<lparr>tip_displayName = ''Deviation (abs)'', tip_value = JStr ''0.00''\<rparr>,
             \<lparr>tip_displayName = ''Deviation (%)'', tip_value = JStr ''0.00%''\<rparr>]\<rparr>,
         \<lparr>category = JStr ''C'', dp_value = Finite 30, colour = getColor host (JStr ''C''),
          identity = SelectionId (Some sampleCategoryColumn) 2,
          highlighted = False,
          tooltips =
            [\<lparr>tip_displayName = ''Category'', tip_value = JStr ''C''\<rparr>,
             \<lparr>tip_displayName = ''Sales'', tip_value = JStr ''30.00''\<rparr>,
             \<lparr>tip_displayName = ''Deviation (abs)'', tip_value = JStr ''10.00''\<rparr>,
             \<lparr>tip_displayName = ''Deviation (%)'', tip_value = JStr ''50.00%''\<rparr>]\<rparr>],
      maxValue = JNum (Finite 30), highlights = False, average = Finite 20\<rparr>"

text \<open>Two rows in a highlight state of the host: the first row is not highlighted.\<close>

definition sampleHighlit :: VisualUpdateOptions where
  "sampleHighlit =
     sampleOptions [JStr ''A'', JStr ''B''] [JNum (Finite 10), JNum (Finite 30)] (Some [JNull, JNum (Finite 30)])"

definition sampleHighlitViewModel :: "Host \<Rightarrow> ViewModel" where
  "sampleHighlitViewModel host =
     \<lparr>dataPoints =
        [\<lparr>category = JStr ''A'', dp_value = Finite 10, colour = getColor host (JStr ''A''),
          identity = SelectionId (Some sampleCategoryColumn) 0,
          highlighted = False,
          tooltips =
            [\<lparr>tip_displayName = ''Category'', tip_value = JStr ''A''\<rparr>,
             \<lparr>tip_displayName = ''Sales'', tip_value = JStr ''10.00''\<rparr>,
             \<lparr>tip_displayName = ''Deviation (abs)'', tip_value = JStr ''-10.00''\<rparr>,
             \<lparr>tip_displayName = ''Deviation (%)'', tip_value = JStr ''-50.00%''\<rparr>]\<rparr>,
         \<lparr>category = JStr ''B'', dp_value = Finite 30, colour = getColor host (JStr ''B''),
          identity = SelectionId (Some sampleCategoryColumn) 1,
          highlighted = True,
          tooltips =
            [\<lparr>tip_displayName = ''Category'', tip_value = JStr ''B''\<rparr>,
             \<lparr>tip_displayName = ''Sales'', tip_value = JStr ''30.00''\<rparr>,
             \<lparr>tip_displayName = ''Deviation (abs)'', tip_value = JStr ''10.00''\<rparr>,
             \<lparr>tip_displayName = ''Deviation (%)'', tip_value = JStr ''50.00%''\<rparr>]\<rparr>],
      maxValue = JNum (Finite 30), highlights = True, average = Finite 20\<rparr>"

text \<open>
  A data point as the two loops over the finished list leave it: the absolute deviation is
  pushed onto its tooltips, and the percent deviation after it unless the average is 0.
\<close>

definition finished :: "Host \<Rightarrow> double \<Rightarrow> DataPoint \<Rightarrow> DataPoint" where
  "finished host avg dp =
     dp\<lparr>tooltips := tooltips dp @ absDeviation host avg dp #
                      (if avg \<noteq> Finite 0 then [pctDeviation host avg dp] else [])\<rparr>"

text \<open>Two rows, the first with the measure \<open>NaN\<close>.\<close>

definition sampleNaN :: VisualUpdateOptions where
  "sampleNaN = sampleOptions [JStr ''A'', JStr ''B''] [JNum NaN, JNum (Finite 10)] None"

definition sampleNaNViewModel :: "Host \<Rightarrow> ViewModel" where
  "sampleNaNViewModel host =
     \<lparr>dataPoints =
        [\<lparr>category = JStr ''A'', dp_value = NaN, colour = getColor host (JStr ''A''),
          identity = SelectionId (Some sampleCategoryColumn) 0,
          highlighted = False,
          tooltips =
            [\<lparr>tip_displayName = ''Category'', tip_value = JStr ''A''\<rparr>,
             \<lparr>tip_displayName = ''Sales'', tip_value = JStr ''NaN''\<rparr>,
             \<lparr>tip_displayName = ''Deviation (abs)'', tip_value = JStr ''NaN''\<rparr>,
             \<lparr>tip_displayName = ''Deviation (%)'', tip_value = JStr ''NaN%''\<rparr>]\<rparr>,
         \<lparr>category = JStr ''B'', dp_value = Finite 10, colour = getColor host (JStr ''B''),
          identity = SelectionId (Some sampleCategoryColumn) 1,
          highlighted = False,
          tooltips =
            [\<lparr>tip_displayName = ''Category'', tip_value = JStr ''B''\<rparr>,
             \<lparr>tip_displayName = ''Sales'', tip_value = JStr ''10.00''\<rparr>,
             \<lparr>tip_displayName = ''Deviation (abs)'', tip_value = JStr ''5.00''\<rparr>,
             \<lparr>tip_displayName = ''Deviation (%)'', tip_value = JStr ''100.00%''\<rparr>]\<rparr>],
      maxValue = JNum (Finite 10), highlights = False, average = Finite 5\<rparr>"

text \<open>
  The average as the specification words it: the sum of the values divided by their
  number when there is one, and 0 otherwise.
\<close>

definition spec_average :: "double list \<Rightarrow> double" where
  "spec_average vs =
     (if length vs > 0 then fdiv (foldl fadd (Finite 0) vs) (Finite (of_nat (length vs)))
      else Finite 0)"

section \<open>Library facts\<close>

lemma error_is_TypeError: "(e::error) = TypeError"
  by (cases e) simp

lemma js_less_NaN: "js_less a b \<Longrightarrow> a \<noteq> NaN \<and> b \<noteq> NaN"
  by (cases a; cases b) simp_all

lemma js_less_trans: "js_less a b \<Longrightarrow> js_less b c \<Longrightarrow> js_less a c"
  by (cases a; cases b; cases c) simp_all

lemma js_less_asym: "js_less a b \<Longrightarrow> \<not> js_less b a"
  by (cases a; cases b) simp_all

lemma js_less_linear: "a \<noteq> NaN \<Longrightarrow> b \<noteq> NaN \<Longrightarrow> js_less a b \<or> a = b \<or> js_less b a"
  by (cases a; cases b) auto

text \<open>The second loop of \<open>d3.max\<close> returns an element that no element exceeds.\<close>

lemma d3_max_rest_is_max:
  "a \<noteq> NaN \<Longrightarrow>
     d3_max_rest a bs \<in> set (a # bs) \<and> d3_max_rest a bs \<noteq> NaN \<and>
     (\<forall>b \<in> set (a # bs). \<not> js_less (d3_max_rest a bs) b)"
proof (induction bs arbitrary: a)
  case Nil
  then show ?case by (cases a) simp_all
next
  case (Cons b bs)
  define a' where "a' = (if js_less a b then b else a)"
  define r where "r = d3_max_rest a' bs"
  have a': "a' \<noteq> NaN"
  proof (cases "js_less a b")
    case True
    then show ?thesis using js_less_NaN [of a b] by (simp add: a'_def)
  next
    case False
    then show ?thesis using Cons.prems by (simp add: a'_def)
  qed
  from Cons.IH [OF a'] have r: "r \<in> set (a' # bs)" "r \<noteq> NaN"
    and m: "\<forall>c \<in> set (a' # bs). \<not> js_less r c"
    by (simp_all add: r_def)
  have le: "\<not> js_less r c" if c: "\<not> js_less a' c" for c
  proof
    assume lt: "js_less r c"
    then have "c \<noteq> NaN" using js_less_NaN by blast
    with a' c have "c = a' \<or> js_less c a'" using js_less_linear [of a' c] by blast
    then have "js_less r a'"
    proof
      assume "c = a'"
      with lt show ?thesis by simp
    next
      assume "js_less c a'"
      with lt show ?thesis by (rule js_less_trans)
    qed
    moreover from m have "\<not> js_less r a'" by simp
    ultimately show False by contradiction
  qed
  have "\<not> js_less a' a" and "\<not> js_less a' b"
  proof -
    show "\<not> js_less a' a"
    proof (cases "js_less a b")
      case True
      then show ?thesis using js_less_asym [of a b] by (simp add: a'_def)
    next
      case False
      then show ?thesis using js_less_asym [of a a] by (auto simp: a'_def)
    qed
    show "\<not> js_less a' b"
    proof (cases "js_less a b")
      case True
      then show ?thesis using js_less_asym [of b b] by (auto simp: a'_def)
    next
      case False
      then show ?thesis by (simp add: a'_def)
    qed
  qed
  then have "\<not> js_less r a" "\<not> js_less r b" by (simp_all add: le)
  moreover have res: "d3_max_rest a (b # bs) = r" by (simp add: r_def a'_def)
  moreover from r(1) have "r \<in> set (a # b # bs)" by (auto simp: a'_def split: if_splits)
  moreover from m have "\<forall>c \<in> set bs. \<not> js_less r c" by simp
  ultimately show ?case using r(2) unfolding res by simp
qed

lemma d3_max_Nil: "d3_max [] f = JUndefined"
  by (simp add: d3_max_def)

lemma d3_max_is_max:
  assumes "\<exists>x \<in> set array. f x \<noteq> NaN"
  shows "\<exists>m. d3_max array f = JNum m \<and> m \<in> f ` set array \<and> m \<noteq> NaN \<and>
           (\<forall>x \<in> set array. \<not> js_less m (f x))"
proof -
  from assms have "dropWhile (\<lambda>b. b = NaN) (map f array) \<noteq> []"
    by (auto simp: dropWhile_eq_Nil_conv)
  then obtain b bs where d: "dropWhile (\<lambda>b. b = NaN) (map f array) = b # bs"
    by (cases "dropWhile (\<lambda>b. b = NaN) (map f array)") auto
  then have b: "b \<noteq> NaN" using hd_dropWhile [of "\<lambda>b. b = NaN" "map f array"] by auto
  define m where "m = d3_max_rest b bs"
  from d3_max_rest_is_max [OF b, of bs] have m: "m \<in> set (b # bs)" "m \<noteq> NaN"
    "\<forall>c \<in> set (b # bs). \<not> js_less m c" by (simp_all add: m_def)
  have sub: "set (b # bs) \<subseteq> f ` set array"
    using set_dropWhileD [of _ "\<lambda>b. b = NaN" "map f array"] by (auto simp: d)
  have "\<not> js_less m (f x)" if "x \<in> set array" for x
  proof (cases "f x \<in> set (b # bs)")
    case True
    with m(3) show ?thesis by blast
  next
    case False
    have "map f array = takeWhile (\<lambda>b. b = NaN) (map f array) @ b # bs"
      using takeWhile_dropWhile_id [of "\<lambda>b. b = NaN" "map f array"] by (simp add: d)
    then have "set (map f array) = set (takeWhile (\<lambda>b. b = NaN) (map f array)) \<union> set (b # bs)"
      by (metis set_append)
    with that False have "f x \<in> set (takeWhile (\<lambda>b. b = NaN) (map f array))" by auto
    then have "f x = NaN" by (rule set_takeWhileD [THEN conjunct2])
    then show ?thesis using js_less_NaN by blast
  qed
  with m sub show ?thesis by (auto simp: d3_max_def d m_def)
qed

text \<open>\<open>d3.sum\<close> adds, from the left, the elements that are not \<open>NaN\<close>.\<close>

lemma d3_sum_from_foldl: "d3_sum_from s xs = foldl fadd s (filter (\<lambda>a. a \<noteq> NaN) xs)"
  by (induction xs arbitrary: s) simp_all

lemma d3_sum_foldl: "d3_sum array f = foldl fadd (Finite 0) (filter (\<lambda>a. a \<noteq> NaN) (map f array))"
  by (simp add: d3_sum_def d3_sum_from_foldl)

text \<open>Integers up to \<open>2^53\<close> are doubles: rounding leaves them as they are.\<close>

lemma ilog2_up_bounds: "1 \<le> a \<Longrightarrow> 2 ^ ilog2_up a \<le> a \<and> a < 2 ^ Suc (ilog2_up a)"
proof (induction a rule: ilog2_up.induct)
  case (1 a)
  show ?case
  proof (cases "a < 2")
    case True
    with "1.prems" show ?thesis by (simp add: ilog2_up.simps [of a])
  next
    case False
    then have "1 \<le> a / 2" by simp
    with "1.IH" [OF False] have "2 ^ ilog2_up (a / 2) \<le> a / 2" "a / 2 < 2 ^ Suc (ilog2_up (a / 2))"
      by simp_all
    with False show ?thesis by (simp add: ilog2_up.simps [of a])
  qed
qed

lemma round_half_even_of_int: "round_half_even (of_int j) = j"
  by (simp add: round_half_even_def)

lemma round_double_of_int:
  assumes "\<bar>k\<bar> \<le> 2 ^ 53"
  shows "round_double (of_int k) = Finite (of_int k)"
proof (cases "k = 0")
  case True
  then show ?thesis by (simp add: round_double_def)
next
  case False
  define a :: rat where "a = of_int \<bar>k\<bar>"
  define n where "n = ilog2_up a"
  from False have "1 \<le> \<bar>k\<bar>" by simp
  then have a1: "1 \<le> a" unfolding a_def by (metis of_int_1 of_int_le_iff)
  from assms have a53: "a \<le> 2 ^ 53" unfolding a_def
    by (metis of_int_le_iff of_int_numeral of_int_power)
  from ilog2_up_bounds [OF a1] have lo: "2 ^ n \<le> a" and hi: "a < 2 ^ Suc n"
    by (simp_all add: n_def)
  from lo a53 have "(2::rat) ^ n \<le> 2 ^ 53" by (rule order_trans)
  then have n53: "n \<le> 53" by (rule power_le_imp_le_exp [rotated]) simp
  have e: "max (ilog2 a) (- 1022) = int n" using a1 by (simp add: ilog2_def n_def)
  have m: "of_int (round_half_even (a / pow2 (int n - 52))) * pow2 (int n - 52) = a"
  proof (cases "n = 53")
    case True
    with lo a53 have a: "a = 2 ^ 53" by simp
    from True have q: "pow2 (int n - 52) = 2" by (simp add: pow2_def)
    from a have "a / 2 = of_int (2 ^ 52)" by simp
    then show ?thesis unfolding q
      by (simp only: round_half_even_of_int)
  next
    case False
    with n53 have n52: "n \<le> 52" by simp
    then have q: "pow2 (int n - 52) = 1 / 2 ^ (52 - n)"
      by (cases "n = 52") (simp_all add: pow2_def nat_diff_distrib')
    have "a / pow2 (int n - 52) = of_int (\<bar>k\<bar> * 2 ^ (52 - n))"
      by (simp add: q a_def)
    then show ?thesis
      by (simp only: round_half_even_of_int) (simp add: q a_def)
  qed
  have big: "\<not> pow2 1024 \<le> a"
  proof -
    have "(2::rat) ^ 53 < 2 ^ 1024" by (rule power_strict_increasing) simp_all
    with a53 show ?thesis by (simp add: pow2_def)
  qed
  have abs: "\<bar>of_int k :: rat\<bar> = a" by (simp add: a_def)
  from False have nz: "(of_int k :: rat) \<noteq> 0" by simp
  have "round_double (of_int k) = Finite (if (of_int k :: rat) < 0 then - a else a)"
    unfolding round_double_def Let_def abs e m using nz big by simp
  also have "(if (of_int k :: rat) < 0 then - a else a) = of_int k"
    by (simp add: a_def)
  finally show ?thesis .
qed

lemma round_double_numeral:
  "numeral k \<le> (9007199254740992::int) \<Longrightarrow> round_double (numeral k) = Finite (numeral k)"
  "numeral k \<le> (9007199254740992::int) \<Longrightarrow> round_double (- numeral k) = Finite (- numeral k)"
  "round_double 0 = Finite 0" "round_double 1 = Finite 1"
  using round_double_of_int [of "numeral k"] round_double_of_int [of "- numeral k"]
    round_double_of_int [of 0] round_double_of_int [of 1]
  by simp_all

lemma loop_Inr:
  "getViewModel_loop mk i len acc = Inr dps \<Longrightarrow>
     \<exists>ds. dps = acc @ ds \<and> length ds = len - i \<and> (\<forall>j < len - i. mk (i + j) = Inr (ds ! j))"
proof (induction mk i len acc rule: getViewModel_loop.induct)
  case (1 mk i len acc)
  show ?case
  proof (cases "i < len")
    case False
    with "1.prems" show ?thesis by (simp add: getViewModel_loop.simps)
  next
    case True
    with "1.prems" obtain dp where dp: "mk i = Inr dp"
      and rest: "getViewModel_loop mk (Suc i) len (acc @ [dp]) = Inr dps"
      by (simp add: getViewModel_loop.simps [of mk i] split: sum.splits)
    from "1.IH" [OF True dp rest] obtain ds where ds: "dps = (acc @ [dp]) @ ds"
      "length ds = len - Suc i" "\<forall>j < len - Suc i. mk (Suc i + j) = Inr (ds ! j)"
      by blast
    have "\<forall>j < len - i. mk (i + j) = Inr ((dp # ds) ! j)"
    proof (intro allI impI)
      fix j assume j: "j < len - i"
      show "mk (i + j) = Inr ((dp # ds) ! j)"
      proof (cases j)
        case 0
        with dp show ?thesis by simp
      next
        case (Suc k)
        with j ds(3) show ?thesis by simp
      qed
    qed
    moreover have "length (dp # ds) = len - i" using ds(2) True by simp
    moreover have "dps = acc @ dp # ds" using ds(1) by simp
    ultimately show ?thesis by blast
  qed
qed

lemma loop_total:
  "(\<forall>j. i \<le> j \<and> j < len \<longrightarrow> (\<exists>d. mk j = Inr d)) \<Longrightarrow> \<exists>dps. getViewModel_loop mk i len acc = Inr dps"
proof (induction mk i len acc rule: getViewModel_loop.induct)
  case (1 mk i len acc)
  show ?case
  proof (cases "i < len")
    case False
    then show ?thesis by (simp add: getViewModel_loop.simps)
  next
    case True
    with "1.prems" obtain dp where dp: "mk i = Inr dp" by auto
    from "1.prems" have "\<forall>j. Suc i \<le> j \<and> j < len \<longrightarrow> (\<exists>d. mk j = Inr d)" by auto
    from "1.IH" [OF True dp this] obtain dps
      where "getViewModel_loop mk (Suc i) len (acc @ [dp]) = Inr dps" by blast
    with True dp show ?thesis by (simp add: getViewModel_loop.simps [of mk i])
  qed
qed

section \<open>The shape of a run\<close>

lemma filter_by_role_Inr:
  "list_all (\<lambda>c. roles c \<noteq> None) cs \<Longrightarrow> filter_by_role r cs = Inr (filter (hasRole r) cs)"
  by (induction cs) (auto simp: hasRole_def)

lemma filter_by_role_Inl:
  "\<not> list_all (\<lambda>c. roles c \<noteq> None) cs \<Longrightarrow> filter_by_role r cs = Inl TypeError"
  by (induction cs) (auto simp: error_is_TypeError split: sum.splits option.splits)

lemma columnName_Inr_iff:
  "(\<exists>n. columnName md r = Inr n) \<longleftrightarrow>
     list_all (\<lambda>c. roles c \<noteq> None) (columns md) \<and> list_ex (hasRole r) (columns md)"
proof (cases "list_all (\<lambda>c. roles c \<noteq> None) (columns md)")
  case True
  have "filter (hasRole r) (columns md) = [] \<longleftrightarrow> \<not> list_ex (hasRole r) (columns md)"
    by (simp add: filter_empty_conv list_ex_iff)
  with True show ?thesis
    by (cases "filter (hasRole r) (columns md)") (auto simp: columnName_def filter_by_role_Inr)
next
  case False
  then show ?thesis by (simp add: columnName_def filter_by_role_Inl)
qed

lemma getViewModel_accepted:
  assumes "accepted options cats vals md"
  shows "getViewModel host options =
     (case columnName md ''category'' of Inl e \<Rightarrow> Inl e | Inr cn \<Rightarrow>
     (case columnName md ''measure'' of Inl e \<Rightarrow> Inl e | Inr vn \<Rightarrow>
     (case getViewModel_loop (dataPointAt host cats vals cn vn) 0 (rowCount cats vals) [] of
        Inl e \<Rightarrow> Inl e
      | Inr dps \<Rightarrow> Inr (getViewModel_finish host dps))))"
  using assms unfolding rowCount_def
  by (auto simp: accepted_def firstDataView_def firstCategory_def firstMeasure_def
        getViewModel_def split: option.splits)

lemma getViewModel_Inr_cases:
  assumes "getViewModel host options = Inr vm"
  shows "vm = emptyViewModel \<or> (\<exists>cats vals md. accepted options cats vals md)"
proof (cases "vm = emptyViewModel")
  case True
  then show ?thesis by simp
next
  case False
  with assms obtain dv dv0 view cs cats src vs md vals where
    "dataViews options = Some dv" "at_object dv 0 = Some dv0" "categorical dv0 = Some view"
    "categories view = Some cs" "at_object cs 0 = Some cats" "source cats = Some src"
    "values_columns view = Some vs" "metadata dv0 = Some md" "at_object vs 0 = Some vals"
    by (auto simp: getViewModel_def split: option.splits)
  then have "accepted options cats vals md"
    by (simp add: accepted_def firstDataView_def firstCategory_def firstMeasure_def)
  then show ?thesis by blast
qed

lemma dataPointAt_Inr_iff:
  "(\<exists>d. dataPointAt host cats vals cn vn i = Inr d) \<longleftrightarrow> isNumber (at_index (val_values vals) i)"
  by (cases "at_index (val_values vals) i") (simp_all add: dataPointAt_def isNumber_def)

lemma dataPointAt_fields:
  assumes "dataPointAt host cats vals cn vn i = Inr d"
  shows "category d = at_index (cat_values cats) i"
    and "at_index (val_values vals) i = JNum (dp_value d)"
    and "identity d = createSelectionId cats i"
    and "highlighted d = highlightedAt (val_highlights vals) i"
    and "tooltips d =
           [\<lparr>tip_displayName = cn, tip_value = category d\<rparr>,
            \<lparr>tip_displayName = vn, tip_value = JStr (toFixed (numberToString host) 2 (dp_value d))\<rparr>]"
  using assms
  by (cases "at_index (val_values vals) i"; auto simp: dataPointAt_def)+

lemma pushTooltip_length: "length (pushTooltip item dps) = length dps"
  by (simp add: pushTooltip_def)

lemma pushTooltip_nth:
  "i < length dps \<Longrightarrow> pushTooltip item dps ! i = (dps ! i)\<lparr>tooltips := tooltips (dps ! i) @ [item (dps ! i)]\<rparr>"
  by (simp add: pushTooltip_def)

lemma finish_average:
  "average (getViewModel_finish host dps) =
     (if dps = [] then Finite 0
      else fdiv (foldl fadd (Finite 0) (filter (\<lambda>a. a \<noteq> NaN) (map dp_value dps)))
             (Finite (of_nat (length dps))))"
  by (simp add: getViewModel_finish_def Let_def d3_sum_foldl)

lemma finish_maxValue: "maxValue (getViewModel_finish host dps) = d3_max dps dp_value"
  by (simp add: getViewModel_finish_def Let_def)

lemma finish_highlights:
  "highlights (getViewModel_finish host dps) \<longleftrightarrow> (\<exists>dp \<in> set dps. highlighted dp)"
  by (simp add: getViewModel_finish_def Let_def filter_empty_conv)

lemma finish_dataPoints:
  "dataPoints (getViewModel_finish host dps) =
     map (finished host (average (getViewModel_finish host dps))) dps"
  by (simp add: getViewModel_finish_def Let_def pushTooltip_def finished_def pctDeviation_def)

lemma finished_fields:
  "category (finished host avg dp) = category dp"
  "dp_value (finished host avg dp) = dp_value dp"
  "identity (finished host avg dp) = identity dp"
  "highlighted (finished host avg dp) = highlighted dp"
  "colour (finished host avg dp) = colour dp"
  by (simp_all add: finished_def)

lemma getViewModel_accepted_Inr:
  assumes "accepted options cats vals md" and "getViewModel host options = Inr vm"
  obtains cn vn dps where
    "columnName md ''category'' = Inr cn" "columnName md ''measure'' = Inr vn"
    "getViewModel_loop (dataPointAt host cats vals cn vn) 0 (rowCount cats vals) [] = Inr dps"
    "vm = getViewModel_finish host dps"
  using assms(2) unfolding getViewModel_accepted [OF assms(1)]
  by (auto split: sum.splits)

lemma getViewModel_rows:
  assumes "accepted options cats vals md" and "getViewModel host options = Inr vm"
  obtains cn vn dps where
    "columnName md ''category'' = Inr cn" "columnName md ''measure'' = Inr vn"
    "length dps = rowCount cats vals"
    "\<forall>i < rowCount cats vals. dataPointAt host cats vals cn vn i = Inr (dps ! i)"
    "vm = getViewModel_finish host dps"
proof -
  from assms obtain cn vn dps where cn: "columnName md ''category'' = Inr cn"
    and vn: "columnName md ''measure'' = Inr vn"
    and loop: "getViewModel_loop (dataPointAt host cats vals cn vn) 0 (rowCount cats vals) [] = Inr dps"
    and vm: "vm = getViewModel_finish host dps"
    by (rule getViewModel_accepted_Inr)
  from loop_Inr [OF loop] have "length dps = rowCount cats vals"
    and "\<forall>i < rowCount cats vals. dataPointAt host cats vals cn vn i = Inr (dps ! i)"
    by auto
  with cn vn vm show ?thesis by (intro that)
qed

lemma getViewModel_unfinished:
  assumes "getViewModel host options = Inr vm"
  obtains "vm = emptyViewModel"
  | cn vn dps where "vm = getViewModel_finish host dps"
      "\<forall>d \<in> set dps. tooltips d =
           [\<lparr>tip_displayName = cn, tip_value = category d\<rparr>,
            \<lparr>tip_displayName = vn, tip_value = JStr (toFixed (numberToString host) 2 (dp_value d))\<rparr>]"
proof (cases "vm = emptyViewModel")
  case True
  then show ?thesis by (rule that(1))
next
  case False
  with getViewModel_Inr_cases [OF assms] obtain cats vals md where "accepted options cats vals md"
    by blast
  from this assms obtain cn vn dps where len: "length dps = rowCount cats vals"
    and rows: "\<forall>i < rowCount cats vals. dataPointAt host cats vals cn vn i = Inr (dps ! i)"
    and vm: "vm = getViewModel_finish host dps"
    by (rule getViewModel_rows)
  have "\<forall>d \<in> set dps. tooltips d =
           [\<lparr>tip_displayName = cn, tip_value = category d\<rparr>,
            \<lparr>tip_displayName = vn, tip_value = JStr (toFixed (numberToString host) 2 (dp_value d))\<rparr>]"
  proof
    fix d assume "d \<in> set dps"
    then obtain i where "i < length dps" "dps ! i = d" by (auto simp: in_set_conv_nth)
    with len rows have "dataPointAt host cats vals cn vn i = Inr d" by auto
    then show "tooltips d =
           [\<lparr>tip_displayName = cn, tip_value = category d\<rparr>,
            \<lparr>tip_displayName = vn, tip_value = JStr (toFixed (numberToString host) 2 (dp_value d))\<rparr>]"
      by (rule dataPointAt_fields(5))
  qed
  with vm show ?thesis by (rule that(2))
qed

lemma getViewModel_returns_iff:
  assumes "accepted options cats vals md"
  shows "(\<exists>vm. getViewModel host options = Inr vm) \<longleftrightarrow> well_formed cats vals md"
proof
  assume "\<exists>vm. getViewModel host options = Inr vm"
  then obtain vm where "getViewModel host options = Inr vm" ..
  with assms obtain cn vn dps where cn: "columnName md ''category'' = Inr cn"
    and vn: "columnName md ''measure'' = Inr vn"
    and rows: "\<forall>i < rowCount cats vals. dataPointAt host cats vals cn vn i = Inr (dps ! i)"
    by (rule getViewModel_rows)
  from rows have "\<forall>i < rowCount cats vals. isNumber (at_index (val_values vals) i)"
    using dataPointAt_Inr_iff by blast
  moreover from cn vn columnName_Inr_iff
  have "list_all (\<lambda>c. roles c \<noteq> None) (columns md)" "list_ex (hasRole ''category'') (columns md)"
    "list_ex (hasRole ''measure'') (columns md)" by blast+
  ultimately show "well_formed cats vals md"
    by (simp add: well_formed_def list_all_iff)
next
  assume wf: "well_formed cats vals md"
  then obtain cn vn where cn: "columnName md ''category'' = Inr cn"
    and vn: "columnName md ''measure'' = Inr vn"
    using columnName_Inr_iff [of md] unfolding well_formed_def by blast
  from wf have "\<forall>j. 0 \<le> j \<and> j < rowCount cats vals \<longrightarrow> (\<exists>d. dataPointAt host cats vals cn vn j = Inr d)"
    by (simp add: well_formed_def list_all_iff dataPointAt_Inr_iff)
  from loop_total [OF this] obtain dps where
    "getViewModel_loop (dataPointAt host cats vals cn vn) 0 (rowCount cats vals) [] = Inr dps" ..
  with cn vn show "\<exists>vm. getViewModel host options = Inr vm"
    by (simp add: getViewModel_accepted [OF assms])
qed

section \<open>Sample runs\<close>

lemma decimal_digit: "n < 10 \<Longrightarrow> decimal n = [digit_char n]"
  by (simp add: decimal.simps)

lemma decimal_step: "10 \<le> n \<Longrightarrow> decimal n = decimal (n div 10) @ [digit_char (n mod 10)]"
  by (subst decimal.simps) simp

lemma digit_chars:
  "digit_char 0 = CHR ''0''" "digit_char 1 = CHR ''1''" "digit_char 2 = CHR ''2''"
  "digit_char 3 = CHR ''3''" "digit_char 4 = CHR ''4''" "digit_char 5 = CHR ''5''"
  "digit_char 6 = CHR ''6''" "digit_char 7 = CHR ''7''" "digit_char 8 = CHR ''8''"
  "digit_char 9 = CHR ''9''"
  by (simp_all add: digit_char_def)

lemma floor_rat_divide_numeral:
  "\<lfloor>numeral a / numeral b :: rat\<rfloor> = numeral a div numeral b"
  using floor_divide_of_int_eq [of "numeral a" "numeral b", where ?'a = rat] by simp

lemma floor_rat_half: "\<lfloor>1 / 2 :: rat\<rfloor> = 0"
  by (simp add: floor_eq_iff)

lemma toFixed_samples:
  "toFixed ts 2 (Finite 10) = ''10.00''" "toFixed ts 2 (Finite 20) = ''20.00''"
  "toFixed ts 2 (Finite 30) = ''30.00''" "toFixed ts 2 (Finite (- 10)) = ''-10.00''"
  "toFixed ts 2 (Finite 0) = ''0.00''" "toFixed ts 2 (Finite (- 50)) = ''-50.00''"
  "toFixed ts 2 (Finite 50) = ''50.00''" "toFixed ts 2 (Finite 5) = ''5.00''"
  "toFixed ts 2 (Finite 100) = ''100.00''" "toFixed ts 2 NaN = ''NaN''"
  by (simp_all add: toFixed_def toFixed_finite_def Let_def decimal_digit decimal_step
      digit_chars floor_rat_divide_numeral floor_rat_half)

lemma sample_accepted:
  "accepted (sampleOptions cs vs hl) (sampleCategories cs) (sampleValues vs hl) sampleMetadata"
  by (simp add: accepted_def sampleOptions_def oneDataView_def firstDataView_def
      firstCategory_def firstMeasure_def at_object_def sampleCategories_def)

lemma sample_columnNames:
  "columnName sampleMetadata ''category'' = Inr ''Category''"
  "columnName sampleMetadata ''measure'' = Inr ''Sales''"
  by (simp_all add: columnName_def sampleMetadata_def sampleCategoryColumn_def sampleMeasureColumn_def)

lemmas sample_simps =
  sample_columnNames rowCount_def sampleCategories_def sampleValues_def
  getViewModel_loop.simps dataPointAt_def at_index_def colourAt_def highlightedAt_def
  createSelectionId_def getViewModel_finish_def Let_def d3_max_def d3_sum_def pushTooltip_def
  absDeviation_def pctDeviation_def toFixed_samples fsub_def round_double_numeral

lemma sample_ABC: "getViewModel host sampleABC = Inr (sampleABCViewModel host)"
  by (simp add: sampleABC_def sampleABCViewModel_def getViewModel_accepted [OF sample_accepted]
      sample_simps)

lemma sample_Highlit: "getViewModel host sampleHighlit = Inr (sampleHighlitViewModel host)"
  by (simp add: sampleHighlit_def sampleHighlitViewModel_def
      getViewModel_accepted [OF sample_accepted] sample_simps)

lemma sample_NaN: "getViewModel host sampleNaN = Inr (sampleNaNViewModel host)"
  by (simp add: sampleNaN_def sampleNaNViewModel_def getViewModel_accepted [OF sample_accepted]
      sample_simps)

lemma sample_well_formed:
  "well_formed (sampleCategories [JStr ''A'', JStr ''B'', JStr ''C''])
     (sampleValues [JNum (Finite 10), JNum (Finite 20), JNum (Finite 30)] None) sampleMetadata"
  by (simp add: well_formed_def sampleMetadata_def sampleCategoryColumn_def
      sampleMeasureColumn_def hasRole_def rowCount_def sampleCategories_def sampleValues_def
      at_index_def isNumber_def upt_rec)

section \<open>The guard\<close>

text \<open>
  What the guard does return the empty view model for: a part that is structurally absent,
  as long as the parts tested before it are there.
\<close>

lemma getViewModel_absent_part:
  "dataViews options = None \<Longrightarrow> getViewModel host options = Inr emptyViewModel"
  "firstDataView options = None \<Longrightarrow> getViewModel host options = Inr emptyViewModel"
  "firstDataView options = Some dv0 \<Longrightarrow> categorical dv0 = None \<Longrightarrow>
     getViewModel host options = Inr emptyViewModel"
  "firstDataView options = Some dv0 \<Longrightarrow> categorical dv0 = Some view \<Longrightarrow>
     categories view = None \<Longrightarrow> getViewModel host options = Inr emptyViewModel"
  "firstDataView options = Some dv0 \<Longrightarrow> firstCategory dv0 = Some cats \<Longrightarrow>
     source cats = None \<Longrightarrow> getViewModel host options = Inr emptyViewModel"
  "firstDataView options = Some dv0 \<Longrightarrow> categorical dv0 = Some view \<Longrightarrow>
     firstCategory dv0 = Some cats \<Longrightarrow> values_columns view = None \<Longrightarrow>
     getViewModel host options = Inr emptyViewModel"
  "firstDataView options = Some dv0 \<Longrightarrow> firstCategory dv0 = Some cats \<Longrightarrow>
     metadata dv0 = None \<Longrightarrow> getViewModel host options = Inr emptyViewModel"
  by (auto simp: getViewModel_def firstDataView_def firstCategory_def split: option.splits)

text \<open>
  C1. The claim: for every malformed input (missing data views, categorical section,
  categories, values or metadata) the builder returns the empty view model and never throws.
  The builder does not do so when a column is missing from an array that is present. With a
  category column and an empty array of value columns the guard lets the input through, and
  reading \<open>highlights\<close> of the missing first value column throws. With an empty array of
  category columns and no values at all, the guard itself throws, reading \<open>source\<close> of the
  missing first category column. With metadata that describes no column, the guard lets the
  input through and reading \<open>displayName\<close> of the missing category column throws.
\<close>

theorem getViewModel_missing_column_throws:
  "getViewModel host
     (oneDataView (Some [Some (sampleCategories [JStr ''A''])]) (Some []) (Some sampleMetadata))
     = Inl TypeError \<and>
   getViewModel host (oneDataView (Some []) None (Some sampleMetadata)) = Inl TypeError \<and>
   getViewModel host
     (oneDataView (Some [Some (sampleCategories [JStr ''A''])])
        (Some [Some (sampleValues [JNum (Finite 10)] None)]) (Some \<lparr>columns = []\<rparr>))
     = Inl TypeError"
  by (simp add: getViewModel_def oneDataView_def at_object_def sampleCategories_def
      columnName_def)

section \<open>The statistics\<close>

text \<open>
  With at least one value that is not \<open>NaN\<close>, \<open>maxValue\<close> is a value of a data point
  that no value exceeds.
\<close>

lemma getViewModel_maxValue_rows:
  assumes "getViewModel host options = Inr vm"
    and "\<exists>dp \<in> set (dataPoints vm). dp_value dp \<noteq> NaN"
  shows "\<exists>m. maxValue vm = JNum m \<and> m \<in> dp_value ` set (dataPoints vm) \<and> m \<noteq> NaN \<and>
           (\<forall>dp \<in> set (dataPoints vm). \<not> js_less m (dp_value dp))"
proof -
  from assms(2) have "vm \<noteq> emptyViewModel" by (auto simp: emptyViewModel_def)
  with assms(1) obtain dps where vm: "vm = getViewModel_finish host dps"
    by (auto elim: getViewModel_unfinished)
  have v: "map dp_value (dataPoints vm) = map dp_value dps"
    by (simp add: vm finish_dataPoints finished_fields)
  then have s: "dp_value ` set (dataPoints vm) = dp_value ` set dps"
    by (metis set_map)
  with assms(2) have "\<exists>x \<in> set dps. dp_value x \<noteq> NaN" by (metis (no_types, lifting) image_iff)
  from d3_max_is_max [OF this] obtain m where "d3_max dps dp_value = JNum m"
    "m \<in> dp_value ` set dps" "m \<noteq> NaN" "\<forall>x \<in> set dps. \<not> js_less m (dp_value x)"
    by blast
  moreover from this(4) s have "\<forall>dp \<in> set (dataPoints vm). \<not> js_less m (dp_value dp)"
    by (metis (no_types, lifting) image_iff)
  ultimately show ?thesis using s by (auto simp: vm finish_maxValue)
qed

text \<open>
  C2. The claim: \<open>maxValue\<close> is the maximum of the values of the data points, and 0 when
  the input has no rows. On an input that passes the guard with empty category and value
  arrays, \<open>d3.max\<close> of the empty list of data points overwrites the initial 0 with
  \<open>undefined\<close>; the average, which is assigned under a test of the length, stays 0.
\<close>

theorem getViewModel_no_rows_maxValue:
  "getViewModel host (sampleOptions [] [] None) =
     Inr \<lparr>dataPoints = [], maxValue = JUndefined, highlights = False, average = Finite 0\<rparr>"
  by (simp add: getViewModel_accepted [OF sample_accepted] sample_simps)

text \<open>
  Without the test of the length the average of no rows would be \<open>0 / 0\<close>, which is
  \<open>NaN\<close>.
\<close>

lemma unguarded_average_NaN:
  "fdiv (d3_sum [] dp_value) (Finite (of_nat (length ([] :: DataPoint list)))) = NaN"
  by (simp add: d3_sum_def)

text \<open>
  C3, as the claim states it: the average is the sum of the values divided by their number
  \<open>N\<close>. A row whose value is \<open>NaN\<close> refutes it: \<open>d3.sum\<close> leaves the row out of the sum,
  the division still counts it, and the average of \<open>NaN\<close> and 10 is 5, where the sum of
  the two values, and with it the quotient, is \<open>NaN\<close>.
\<close>

theorem getViewModel_average_NaN_row:
  "getViewModel sampleHost sampleNaN = Inr (sampleNaNViewModel sampleHost) \<and>
   average (sampleNaNViewModel sampleHost) = Finite 5 \<and>
   spec_average (map dp_value (dataPoints (sampleNaNViewModel sampleHost))) = NaN \<and>
   average (sampleNaNViewModel sampleHost) \<noteq>
     spec_average (map dp_value (dataPoints (sampleNaNViewModel sampleHost)))"
  by (simp add: sample_NaN sampleNaNViewModel_def spec_average_def)

text \<open>
  C3, amended. Whenever the builder returns a view model with at least one data point, its
  average is the quotient, in double arithmetic, of the sum of the values that are not
  \<open>NaN\<close>, added from the left starting at 0, by the number of all data points; with no
  data point it is 0, the division being under the test of the length.
\<close>

theorem getViewModel_average:
  assumes "getViewModel host options = Inr vm"
  shows "average vm =
     (if length (dataPoints vm) > 0
      then fdiv (foldl fadd (Finite 0) (filter (\<lambda>v. v \<noteq> NaN) (map dp_value (dataPoints vm))))
             (Finite (of_nat (length (dataPoints vm))))
      else Finite 0)"
proof -
  from assms show ?thesis
  proof (rule getViewModel_unfinished)
    assume "vm = emptyViewModel"
    then show ?thesis by (simp add: emptyViewModel_def)
  next
    fix cn vn dps assume vm: "vm = getViewModel_finish host dps"
    have "map dp_value (dataPoints vm) = map dp_value dps"
      by (simp add: vm finish_dataPoints finished_fields)
    moreover have "length (dataPoints vm) = length dps"
      by (simp add: vm finish_dataPoints)
    ultimately show ?thesis by (simp add: vm finish_average)
  qed
qed

theorem getViewModel_average_witness:
  "getViewModel sampleHost sampleABC = Inr (sampleABCViewModel sampleHost) \<and>
   average (sampleABCViewModel sampleHost) =
     fdiv (fadd (fadd (fadd (Finite 0) (Finite 10)) (Finite 20)) (Finite 30)) (Finite 3) \<and>
   average (sampleABCViewModel sampleHost) = Finite 20"
  using getViewModel_average [OF sample_ABC [of sampleHost]] sample_ABC [of sampleHost]
  by (simp add: sampleABCViewModel_def round_double_numeral)

section \<open>The rows\<close>

lemma getViewModel_nth:
  assumes "accepted options cats vals md" and "getViewModel host options = Inr vm"
  obtains cn vn dps where
    "length (dataPoints vm) = rowCount cats vals"
    "\<forall>i < rowCount cats vals. dataPointAt host cats vals cn vn i = Inr (dps ! i)"
    "\<forall>i < rowCount cats vals. dataPoints vm ! i = finished host (average vm) (dps ! i)"
proof -
  from assms obtain cn vn dps where len: "length dps = rowCount cats vals"
    and rows: "\<forall>i < rowCount cats vals. dataPointAt host cats vals cn vn i = Inr (dps ! i)"
    and vm: "vm = getViewModel_finish host dps"
    by (rule getViewModel_rows)
  have "length (dataPoints vm) = rowCount cats vals"
    by (simp add: vm finish_dataPoints len)
  moreover have "\<forall>i < rowCount cats vals. dataPoints vm ! i = finished host (average vm) (dps ! i)"
    using len by (simp add: vm finish_dataPoints)
  ultimately show ?thesis using rows by (intro that)
qed

text \<open>
  When the builder returns a view model for an input that passes its guard, the list of
  data points has as many elements as the longer of the category array and the value
  array. By \<open>getViewModel_returns_iff\<close> it returns only when every one of these rows has a
  number as its measure value.
\<close>

lemma getViewModel_returned_length:
  assumes "accepted options cats vals md" and "getViewModel host options = Inr vm"
  shows "length (dataPoints vm) = max (length (cat_values cats)) (length (val_values vals))"
proof -
  from assms have "length (dataPoints vm) = rowCount cats vals"
    by (rule getViewModel_nth)
  then show ?thesis by (simp add: rowCount_def)
qed

text \<open>
  C4. The claim: for every well-formed input with \<open>N\<close> rows, \<open>N\<close> the longer of the two
  array lengths, the returned list of data points has \<open>N\<close> elements. Two rows of which the
  second has a blank measure (\<open>null\<close>) give no list at all: the row's call of \<open>toFixed\<close>
  throws. So do three categories with two values.
\<close>

theorem getViewModel_blank_measure_throws:
  "getViewModel host
     (sampleOptions [JStr ''A'', JStr ''B''] [JNum (Finite 10), JNull] None) = Inl TypeError \<and>
   getViewModel host
     (sampleOptions [JStr ''A'', JStr ''B'', JStr ''C''] [JNum (Finite 10), JNum (Finite 20)] None)
     = Inl TypeError"
  by (simp add: getViewModel_accepted [OF sample_accepted] sample_simps)

text \<open>
  A value array shorter than the category array always ends in a \<open>TypeError\<close>: the row
  after the last value calls \<open>toFixed\<close> on \<open>undefined\<close>. A category array shorter than the
  value array is harmless, the rows past its end have the category \<open>undefined\<close>.
\<close>

lemma getViewModel_values_shorter_throws:
  assumes "accepted options cats vals md"
    and "length (val_values vals) < length (cat_values cats)"
  shows "getViewModel host options = Inl TypeError"
proof -
  have "\<not> isNumber (at_index (val_values vals) (length (val_values vals)))"
    by (simp add: at_index_def isNumber_def)
  moreover from assms(2) have "length (val_values vals) < rowCount cats vals"
    by (simp add: rowCount_def)
  ultimately have "\<not> well_formed cats vals md"
    by (auto simp: well_formed_def list_all_iff)
  with getViewModel_returns_iff [OF assms(1), of host]
  have "\<nexists>vm. getViewModel host options = Inr vm" by simp
  then show ?thesis
    by (cases "getViewModel host options") (simp_all add: error_is_TypeError)
qed

lemma getViewModel_categories_shorter:
  assumes "accepted options cats vals md" and "getViewModel host options = Inr vm"
    and "length (cat_values cats) \<le> i" and "i < length (dataPoints vm)"
  shows "category (dataPoints vm ! i) = JUndefined"
proof -
  from assms(1,2) obtain cn vn dps where len: "length (dataPoints vm) = rowCount cats vals"
    and rows: "\<forall>i < rowCount cats vals. dataPointAt host cats vals cn vn i = Inr (dps ! i)"
    and fin: "\<forall>i < rowCount cats vals. dataPoints vm ! i = finished host (average vm) (dps ! i)"
    by (rule getViewModel_nth)
  from assms(4) len rows have "dataPointAt host cats vals cn vn i = Inr (dps ! i)" by simp
  then have "category (dps ! i) = at_index (cat_values cats) i"
    by (rule dataPointAt_fields(1))
  with assms(3,4) len fin show ?thesis by (simp add: finished_fields at_index_def)
qed

text \<open>
  C7. The claim: when the category array and the value array differ in length, the builder
  iterates to the longer length and does not crash, the missing field being handled as
  absent. With two categories and one value the loop reaches row 1, where
  \<open>values.values[1]\<close> is \<open>undefined\<close>, and the call of \<open>toFixed\<close> on it throws.
\<close>

theorem getViewModel_values_shorter_example:
  "getViewModel host (sampleOptions [JStr ''A'', JStr ''B''] [JNum (Finite 10)] None) = Inl TypeError"
  by (simp add: getViewModel_accepted [OF sample_accepted] sample_simps)

section \<open>The tooltips\<close>

text \<open>
  C5. Every data point of a returned view model carries the category and the measure
  entry, then the absolute deviation from the average, printed by \<open>toFixed(2)\<close>, and after
  it the percent deviation, printed by \<open>toFixed(2)\<close> with a percent sign, exactly when the
  average is not 0. The differences, the product and the quotient are those of double
  arithmetic.
\<close>

theorem getViewModel_tooltips:
  assumes "getViewModel host options = Inr vm" and "dp \<in> set (dataPoints vm)"
  shows "\<exists>cn vn. tooltips dp =
     [\<lparr>tip_displayName = cn, tip_value = category dp\<rparr>,
      \<lparr>tip_displayName = vn, tip_value = JStr (toFixed (numberToString host) 2 (dp_value dp))\<rparr>,
      \<lparr>tip_displayName = ''Deviation (abs)'',
       tip_value = JStr (toFixed (numberToString host) 2 (fsub (dp_value dp) (average vm)))\<rparr>] @
     (if average vm \<noteq> Finite 0
      then [\<lparr>tip_displayName = ''Deviation (%)'',
             tip_value = JStr (toFixed (numberToString host) 2
                                 (fdiv (fmul (Finite 100) (fsub (dp_value dp) (average vm)))
                                    (average vm)) @ ''%'')\<rparr>]
      else [])"
proof -
  from assms(1) show ?thesis
  proof (rule getViewModel_unfinished)
    assume "vm = emptyViewModel"
    with assms(2) show ?thesis by (simp add: emptyViewModel_def)
  next
    fix cn vn dps
    assume vm: "vm = getViewModel_finish host dps"
      and tips: "\<forall>d \<in> set dps. tooltips d =
           [\<lparr>tip_displayName = cn, tip_value = category d\<rparr>,
            \<lparr>tip_displayName = vn, tip_value = JStr (toFixed (numberToString host) 2 (dp_value d))\<rparr>]"
    from assms(2) obtain d where d: "d \<in> set dps" and dp: "dp = finished host (average vm) d"
      by (auto simp: vm finish_dataPoints)
    from tips d have "tooltips d =
           [\<lparr>tip_displayName = cn, tip_value = category d\<rparr>,
            \<lparr>tip_displayName = vn, tip_value = JStr (toFixed (numberToString host) 2 (dp_value d))\<rparr>]"
      by blast
    then have "tooltips dp =
       [\<lparr>tip_displayName = cn, tip_value = category dp\<rparr>,
        \<lparr>tip_displayName = vn, tip_value = JStr (toFixed (numberToString host) 2 (dp_value dp))\<rparr>,
        \<lparr>tip_displayName = ''Deviation (abs)'',
         tip_value = JStr (toFixed (numberToString host) 2 (fsub (dp_value dp) (average vm)))\<rparr>] @
       (if average vm \<noteq> Finite 0
        then [\<lparr>tip_displayName = ''Deviation (%)'',
               tip_value = JStr (toFixed (numberToString host) 2
                                   (fdiv (fmul (Finite 100) (fsub (dp_value dp) (average vm)))
                                      (average vm)) @ ''%'')\<rparr>]
        else [])"
      by (simp add: dp finished_def absDeviation_def pctDeviation_def)
    then show ?thesis by blast
  qed
qed

theorem getViewModel_tooltips_witness:
  "getViewModel sampleHost sampleABC = Inr (sampleABCViewModel sampleHost) \<and>
   dataPoints (sampleABCViewModel sampleHost) ! 0 \<in> set (dataPoints (sampleABCViewModel sampleHost)) \<and>
   average (sampleABCViewModel sampleHost) \<noteq> Finite 0 \<and>
   (\<exists>cn vn. tooltips (dataPoints (sampleABCViewModel sampleHost) ! 0) =
     [\<lparr>tip_displayName = cn, tip_value = JStr ''A''\<rparr>,
      \<lparr>tip_displayName = vn, tip_value = JStr ''10.00''\<rparr>,
      \<lparr>tip_displayName = ''Deviation (abs)'', tip_value = JStr ''-10.00''\<rparr>,
      \<lparr>tip_displayName = ''Deviation (%)'', tip_value = JStr ''-50.00%''\<rparr>])"
proof -
  have m: "dataPoints (sampleABCViewModel sampleHost) ! 0 \<in> set (dataPoints (sampleABCViewModel sampleHost))"
    by (simp add: sampleABCViewModel_def)
  from getViewModel_tooltips [OF sample_ABC [of sampleHost] m] sample_ABC [of sampleHost] m
  show ?thesis
    by (simp add: sampleABCViewModel_def toFixed_samples fsub_def round_double_numeral)
qed

section \<open>Highlights\<close>

text \<open>
  C6. The \<open>highlights\<close> flag of a returned view model is true exactly when at least one of
  its data points is highlighted.
\<close>

theorem getViewModel_highlights:
  assumes "getViewModel host options = Inr vm"
  shows "highlights vm \<longleftrightarrow> (\<exists>dp \<in> set (dataPoints vm). highlighted dp)"
proof -
  from assms show ?thesis
  proof (rule getViewModel_unfinished)
    assume "vm = emptyViewModel"
    then show ?thesis by (simp add: emptyViewModel_def)
  next
    fix cn vn dps assume vm: "vm = getViewModel_finish host dps"
    then show ?thesis by (simp add: finish_highlights finish_dataPoints finished_fields)
  qed
qed

theorem getViewModel_highlights_witness:
  "getViewModel sampleHost sampleHighlit = Inr (sampleHighlitViewModel sampleHost) \<and>
   highlights (sampleHighlitViewModel sampleHost) \<and>
   (\<exists>dp \<in> set (dataPoints (sampleHighlitViewModel sampleHost)). highlighted dp)"
  using getViewModel_highlights [OF sample_Highlit [of sampleHost]] sample_Highlit [of sampleHost]
  by (simp add: sampleHighlitViewModel_def)

text \<open>
  C10. The \<open>highlighted\<close> field of the data point of row \<open>i\<close> is a boolean: it is true
  exactly when the value column has a highlights array whose entry at \<open>i\<close> exists and is
  truthy, and false otherwise (no array, or an entry that is \<open>undefined\<close>, \<open>null\<close> or zero).
  The entry itself is never stored.
\<close>

theorem getViewModel_highlighted:
  assumes "accepted options cats vals md" and "getViewModel host options = Inr vm"
    and "i < length (dataPoints vm)"
  shows "highlighted (dataPoints vm ! i) \<longleftrightarrow>
     (\<exists>hs. val_highlights vals = Some hs \<and> i < length hs \<and> truthy (hs ! i))"
proof -
  from assms(1,2) obtain cn vn dps where len: "length (dataPoints vm) = rowCount cats vals"
    and rows: "\<forall>i < rowCount cats vals. dataPointAt host cats vals cn vn i = Inr (dps ! i)"
    and fin: "\<forall>i < rowCount cats vals. dataPoints vm ! i = finished host (average vm) (dps ! i)"
    by (rule getViewModel_nth)
  from assms(3) len rows have "dataPointAt host cats vals cn vn i = Inr (dps ! i)" by simp
  then have "highlighted (dps ! i) = highlightedAt (val_highlights vals) i"
    by (rule dataPointAt_fields(4))
  moreover from assms(3) len fin have "highlighted (dataPoints vm ! i) = highlighted (dps ! i)"
    by (simp add: finished_fields)
  ultimately show ?thesis
    by (cases "val_highlights vals") (auto simp: highlightedAt_def at_index_def)
qed

theorem getViewModel_highlighted_witness:
  "accepted sampleHighlit (sampleCategories [JStr ''A'', JStr ''B''])
     (sampleValues [JNum (Finite 10), JNum (Finite 30)] (Some [JNull, JNum (Finite 30)])) sampleMetadata \<and>
   getViewModel sampleHost sampleHighlit = Inr (sampleHighlitViewModel sampleHost) \<and>
   1 < length (dataPoints (sampleHighlitViewModel sampleHost)) \<and>
   highlighted (dataPoints (sampleHighlitViewModel sampleHost) ! 1) \<and>
   \<not> highlighted (dataPoints (sampleHighlitViewModel sampleHost) ! 0)"
proof -
  have a: "accepted sampleHighlit (sampleCategories [JStr ''A'', JStr ''B''])
     (sampleValues [JNum (Finite 10), JNum (Finite 30)] (Some [JNull, JNum (Finite 30)])) sampleMetadata"
    unfolding sampleHighlit_def by (rule sample_accepted)
  have l1: "1 < length (dataPoints (sampleHighlitViewModel sampleHost))"
    and l0: "0 < length (dataPoints (sampleHighlitViewModel sampleHost))"
    by (simp_all add: sampleHighlitViewModel_def)
  from getViewModel_highlighted [OF a sample_Highlit [of sampleHost] l1]
    getViewModel_highlighted [OF a sample_Highlit [of sampleHost] l0]
    a sample_Highlit [of sampleHost] l1
  show ?thesis by (simp add: sampleValues_def)
qed

section \<open>Identities\<close>

text \<open>
  C9. With the selection id of the host as the specification describes it, two builds
  from inputs with the same category column (in particular, from the same input) give
  equal identities at each row index, whatever the values, highlights and metadata are,
  and the identities within one build are pairwise distinct.
\<close>

theorem getViewModel_identity:
  assumes "accepted options1 cats vals1 md1" and "getViewModel host options1 = Inr vm1"
    and "accepted options2 cats vals2 md2" and "getViewModel host options2 = Inr vm2"
  shows "(\<forall>i. i < length (dataPoints vm1) \<and> i < length (dataPoints vm2) \<longrightarrow>
            identity (dataPoints vm1 ! i) = identity (dataPoints vm2 ! i)) \<and>
         distinct (map identity (dataPoints vm1))"
proof -
  have ident: "identity (dataPoints vm ! i) = createSelectionId cats i"
    if "accepted options cats vals md" "getViewModel host options = Inr vm"
      "i < length (dataPoints vm)" for options vals md vm i
  proof -
    from that(1,2) obtain cn vn dps where len: "length (dataPoints vm) = rowCount cats vals"
      and rows: "\<forall>i < rowCount cats vals. dataPointAt host cats vals cn vn i = Inr (dps ! i)"
      and fin: "\<forall>i < rowCount cats vals. dataPoints vm ! i = finished host (average vm) (dps ! i)"
      by (rule getViewModel_nth)
    from that(3) len rows have "dataPointAt host cats vals cn vn i = Inr (dps ! i)" by simp
    then have "identity (dps ! i) = createSelectionId cats i"
      by (rule dataPointAt_fields(3))
    with that(3) len fin show ?thesis by (simp add: finished_fields)
  qed
  have "identity (dataPoints vm1 ! i) = identity (dataPoints vm2 ! i)"
    if "i < length (dataPoints vm1)" "i < length (dataPoints vm2)" for i
    using ident [OF assms(1,2) that(1)] ident [OF assms(3,4) that(2)] by simp
  moreover have "distinct (map identity (dataPoints vm1))"
  proof -
    have "map identity (dataPoints vm1) = map (createSelectionId cats) [0 ..< length (dataPoints vm1)]"
      by (rule nth_equalityI) (simp_all add: ident [OF assms(1,2)])
    moreover have "inj_on (createSelectionId cats) (set [0 ..< length (dataPoints vm1)])"
      by (rule inj_onI) (simp add: createSelectionId_def)
    ultimately show ?thesis by (simp add: distinct_map)
  qed
  ultimately show ?thesis by blast
qed

theorem getViewModel_identity_witness:
  "accepted sampleABC (sampleCategories [JStr ''A'', JStr ''B'', JStr ''C''])
     (sampleValues [JNum (Finite 10), JNum (Finite 20), JNum (Finite 30)] None) sampleMetadata \<and>
   getViewModel sampleHost sampleABC = Inr (sampleABCViewModel sampleHost) \<and>
   distinct (map identity (dataPoints (sampleABCViewModel sampleHost)))"
proof -
  have a: "accepted sampleABC (sampleCategories [JStr ''A'', JStr ''B'', JStr ''C''])
     (sampleValues [JNum (Finite 10), JNum (Finite 20), JNum (Finite 30)] None) sampleMetadata"
    unfolding sampleABC_def by (rule sample_accepted)
  from getViewModel_identity [OF a sample_ABC [of sampleHost] a sample_ABC [of sampleHost]]
    a sample_ABC [of sampleHost]
  show ?thesis by simp
qed

section \<open>A worked example\<close>

text \<open>
  C8. For the categories A, B, C with the values 10, 20, 30 the builder returns the
  maximum 30 and the average 20; the third tooltip of the rows shows the absolute
  deviations -10, 0 and 10, the fourth the percent deviations -50%, 0% and 50%, each
  printed with two decimals.
\<close>

theorem getViewModel_example:
  assumes "accepted options cats vals md" and "well_formed cats vals md"
    and "cat_values cats = [JStr ''A'', JStr ''B'', JStr ''C'']"
    and "val_values vals = [JNum (Finite 10), JNum (Finite 20), JNum (Finite 30)]"
  shows "\<exists>vm. getViewModel host options = Inr vm \<and>
     maxValue vm = JNum (Finite 30) \<and> average vm = Finite 20 \<and>
     map (\<lambda>dp. tooltips dp ! 2) (dataPoints vm) =
       [\<lparr>tip_displayName = ''Deviation (abs)'', tip_value = JStr ''-10.00''\<rparr>,
        \<lparr>tip_displayName = ''Deviation (abs)'', tip_value = JStr ''0.00''\<rparr>,
        \<lparr>tip_displayName = ''Deviation (abs)'', tip_value = JStr ''10.00''\<rparr>] \<and>
     map (\<lambda>dp. tooltips dp ! 3) (dataPoints vm) =
       [\<lparr>tip_displayName = ''Deviation (%)'', tip_value = JStr ''-50.00%''\<rparr>,
        \<lparr>tip_displayName = ''Deviation (%)'', tip_value = JStr ''0.00%''\<rparr>,
        \<lparr>tip_displayName = ''Deviation (%)'', tip_value = JStr ''50.00%''\<rparr>]"
proof -
  from assms(1,2) obtain vm where ret: "getViewModel host options = Inr vm"
    using getViewModel_returns_iff by blast
  have n: "rowCount cats vals = 3" by (simp add: rowCount_def assms(3,4))
  from assms(1) ret obtain cn vn dps where len: "length dps = 3"
    and rows: "\<forall>i < 3. dataPointAt host cats vals cn vn i = Inr (dps ! i)"
    and vm: "vm = getViewModel_finish host dps"
    unfolding n [symmetric] by (rule getViewModel_rows)
  define d0 d1 d2 where "d0 = dps ! 0" and "d1 = dps ! 1" and "d2 = dps ! 2"
  have dps: "dps = [d0, d1, d2]"
    unfolding d0_def d1_def d2_def
    by (rule nth_equalityI) (auto simp: len nth_Cons' less_Suc_eq numeral_3_eq_3 numeral_2_eq_2)
  from rows have r: "dataPointAt host cats vals cn vn 0 = Inr d0"
    "dataPointAt host cats vals cn vn 1 = Inr d1" "dataPointAt host cats vals cn vn 2 = Inr d2"
    by (simp_all add: d0_def d1_def d2_def)
  have v: "dp_value d0 = Finite 10" "dp_value d1 = Finite 20" "dp_value d2 = Finite 30"
    using r [THEN dataPointAt_fields(2)] by (simp_all add: assms(4) at_index_def)
  have t: "length (tooltips d0) = 2" "length (tooltips d1) = 2" "length (tooltips d2) = 2"
    using r [THEN dataPointAt_fields(5)] by simp_all
  have avg: "average vm = Finite 20"
    by (simp add: vm finish_average dps v round_double_numeral)
  have "maxValue vm = JNum (Finite 30)"
    by (simp add: vm finish_maxValue dps d3_max_def v)
  moreover have "dataPoints vm =
      [finished host (Finite 20) d0, finished host (Finite 20) d1, finished host (Finite 20) d2]"
    using finish_dataPoints [of host dps] avg unfolding vm [symmetric] by (simp add: dps)
  ultimately show ?thesis
    using ret avg
    by (simp add: finished_def absDeviation_def pctDeviation_def nth_append t v toFixed_samples
        numeral_3_eq_3 fsub_def round_double_numeral)
qed

theorem getViewModel_example_witness:
  "accepted sampleABC (sampleCategories [JStr ''A'', JStr ''B'', JStr ''C''])
     (sampleValues [JNum (Finite 10), JNum (Finite 20), JNum (Finite 30)] None) sampleMetadata \<and>
   well_formed (sampleCategories [JStr ''A'', JStr ''B'', JStr ''C''])
     (sampleValues [JNum (Finite 10), JNum (Finite 20), JNum (Finite 30)] None) sampleMetadata \<and>
   (\<exists>vm. getViewModel sampleHost sampleABC = Inr vm \<and> maxValue vm = JNum (Finite 30) \<and>
      average vm = Finite 20)"
proof -
  have a: "accepted sampleABC (sampleCategories [JStr ''A'', JStr ''B'', JStr ''C''])
     (sampleValues [JNum (Finite 10), JNum (Finite 20), JNum (Finite 30)] None) sampleMetadata"
    unfolding sampleABC_def by (rule sample_accepted)
  have c: "cat_values (sampleCategories [JStr ''A'', JStr ''B'', JStr ''C'']) =
      [JStr ''A'', JStr ''B'', JStr ''C'']"
    by (simp add: sampleCategories_def)
  have v: "val_values (sampleValues [JNum (Finite 10), JNum (Finite 20), JNum (Finite 30)] None) =
      [JNum (Finite 10), JNum (Finite 20), JNum (Finite 30)]"
    by (simp add: sampleValues_def)
  from getViewModel_example [OF a sample_well_formed c v, of sampleHost] a sample_well_formed
  show ?thesis by blast
qed

end
